theory Spec2Isabelle
  imports Main "HOL-Library.Multiset"
begin

section \<open>Term model (logic.py)\<close>

text \<open>
  The operators, the four name sorts, applications and the quantifier, as the
  dataclasses of logic.py declare them. An application carries its arity field next
  to its argument list; nothing in the source ties the two together, so the model
  keeps both. A quantifier binds a Variable, whose only field is its name.
\<close>

datatype operator = NOT | AND | OR | IMPLIES | TRUE | FALSE | SAYS | ISKEY | SIGN | ISCA | OPEN | OTHER

datatype formula =
    Variable string
  | Agent string
  | Key string
  | Resource string
  | App operator int "formula list"
  | Forall string formula

text \<open>
  The exceptions the modelled code can raise. A function that can raise returns
  \<open>error + 'a\<close>: \<open>Inl e\<close> is the exception \<open>e\<close>, \<open>Inr v\<close> the value returned.
\<close>

datatype error = IndexError | KeyError | AttributeError | TypeError | ValueError | NameError

text \<open>
  A substitution is a Python dict. \<open>matchs\<close> stores formulas other than variables as
  keys too (the argument of a template), so the keys are formulas.
\<close>

type_synonym substitution = "formula \<rightharpoonup> formula"

text \<open>
  logic.py, \<open>apply_formula\<close>. Only a Variable is looked up in the substitution. A
  template application \<open>App OTHER n args\<close> is replaced by the image of \<open>args[0]\<close>,
  which raises IndexError on an empty argument list. Under a quantifier the bound
  variable is removed from the substitution. \<open>apply_args\<close> is the list comprehension
  over the arguments, left to right.
\<close>

fun apply_formula :: "formula \<Rightarrow> substitution \<Rightarrow> error + formula"
  and apply_args :: "formula list \<Rightarrow> substitution \<Rightarrow> error + formula list" where
  "apply_formula (Variable x) rho =
     Inr (case rho (Variable x) of Some q \<Rightarrow> q | None \<Rightarrow> Variable x)"
| "apply_formula (App oper n args) rho =
     (if oper = OTHER then
        (case args of [] \<Rightarrow> Inl IndexError | a # _ \<Rightarrow> apply_formula a rho)
      else
        (case apply_args args rho of Inl e \<Rightarrow> Inl e | Inr bs \<Rightarrow> Inr (App oper n bs)))"
| "apply_formula (Forall x p) rho =
     (case apply_formula p (rho(Variable x := None)) of
        Inl e \<Rightarrow> Inl e | Inr q \<Rightarrow> Inr (Forall x q))"
| "apply_formula p rho = Inr p"
| "apply_args [] rho = Inr []"
| "apply_args (a # as) rho =
     (case apply_formula a rho of
        Inl e \<Rightarrow> Inl e
      | Inr b \<Rightarrow> (case apply_args as rho of Inl e \<Rightarrow> Inl e | Inr bs \<Rightarrow> Inr (b # bs)))"

section \<open>Matcher (logic.py)\<close>

text \<open>
  The attribute \<open>id\<close>: Variable, Agent and Resource objects have it; a Key (whose
  field is \<open>fingerprint\<close>), an App and a Forall do not, and reading it raises
  AttributeError.
\<close>

fun formula_id :: "formula \<Rightarrow> error + string" where
  "formula_id (Variable i) = Inr i"
| "formula_id (Agent i) = Inr i"
| "formula_id (Resource i) = Inr i"
| "formula_id p = Inl AttributeError"

text \<open>
  logic.py, \<open>matchs\<close>. The template case matches a formula taken from the substitution
  against the concrete formula, so the recursion is not bounded by the size of the
  equations and may go on until Python's recursion limit. The model counts the nested
  calls: \<open>None\<close> means that the fuel ran out. Otherwise the result is \<open>Some (Inl e)\<close>
  for an exception, \<open>Some (Inr None)\<close> when the source returns \<open>None\<close> (no match), and
  \<open>Some (Inr (Some rho))\<close> for the substitution found. The cases are in the order of
  the source's \<open>match\<close> statement:
  \<^item> a Variable pattern is checked against its binding, or bound;
  \<^item> a template \<open>App OTHER n a\<close> uses the placeholder variable \<open>@P\<close> followed by the
    id of \<open>a[0]\<close>;
  \<^item> two applications with the same operator and arity field add the pairs of
    \<open>zip(a1, a2)\<close> in front of the remaining equations (\<open>zip\<close> truncates to the
    shorter list); with another operator or arity the source leaves the \<open>match\<close> and
    returns \<open>None\<close>;
  \<^item> two quantifiers rename the concrete bound variable to the pattern's, match the
    bodies together with the remaining equations without the binding of the bound
    variable, and remove that variable from the result; unpacking a \<open>None\<close> result
    to restore an outer binding raises TypeError;
  \<^item> anything else must be equal.
\<close>

type_synonym match_result = "(error + substitution option) option"

fun matchs :: "nat \<Rightarrow> (formula \<times> formula) list \<Rightarrow> substitution option \<Rightarrow> match_result" where
  "matchs k eqs None = Some (Inr None)"
| "matchs k [] (Some rho) = Some (Inr (Some rho))"
| "matchs 0 (eq # rest) (Some rho) = None"
| "matchs (Suc k) ((Variable x, c) # rest) (Some rho) =
     (case rho (Variable x) of
        Some q \<Rightarrow> if q = c then matchs k rest (Some rho) else Some (Inr None)
      | None \<Rightarrow> matchs k rest (Some (rho(Variable x \<mapsto> c))))"
| "matchs (Suc k) ((App oper n a, c) # rest) (Some rho) =
     (if oper = OTHER then
        (case a of
           [] \<Rightarrow> Some (Inl IndexError)
         | a0 # as \<Rightarrow>
            (case formula_id a0 of
               Inl e \<Rightarrow> Some (Inl e)
             | Inr i \<Rightarrow>
                (case rho (Variable (''@P'' @ i)) of
                   Some pl \<Rightarrow>
                    (case as of
                       [] \<Rightarrow> Some (Inl IndexError)
                     | a1 # _ \<Rightarrow>
                        (case rho a0 of
                           None \<Rightarrow> Some (Inl KeyError)
                         | Some q0 \<Rightarrow>
                            (case matchs k [(q0, c)]
                                    (Some (case rho a1 of
                                             Some v1 \<Rightarrow> rho(pl \<mapsto> v1)
                                           | None \<Rightarrow> rho(a1 \<mapsto> pl))) of
                               None \<Rightarrow> None
                             | Some (Inl e) \<Rightarrow> Some (Inl e)
                             | Some (Inr None) \<Rightarrow> Some (Inr None)
                             | Some (Inr (Some rho_p)) \<Rightarrow>
                                (case rho_p pl of
                                   None \<Rightarrow> Some (Inl KeyError)
                                 | Some pl_v \<Rightarrow>
                                    matchs k rest
                                      (Some ((rho_p(pl := None, a1 := None))(a1 \<mapsto> pl_v)))))))
                 | None \<Rightarrow>
                    (case as of
                       [] \<Rightarrow> Some (Inl IndexError)
                     | a1 # _ \<Rightarrow>
                        matchs k rest (Some (rho(a0 \<mapsto> c, Variable (''@P'' @ i) \<mapsto> a1)))))))
      else
        (case c of
           App o2 n2 a2 \<Rightarrow>
             if oper = o2 \<and> n = n2 then matchs k (zip a a2 @ rest) (Some rho)
             else Some (Inr None)
         | _ \<Rightarrow> Some (Inr None)))"
| "matchs (Suc k) ((Forall x1 p1, c) # rest) (Some rho) =
     (case c of
        Forall x2 p2 \<Rightarrow>
          (case apply_formula p2 [Variable x2 \<mapsto> Variable x1] of
             Inl e \<Rightarrow> Some (Inl e)
           | Inr p2' \<Rightarrow>
              (case matchs k ((p1, p2') # rest) (Some (rho(Variable x1 := None))) of
                 None \<Rightarrow> None
               | Some (Inl e) \<Rightarrow> Some (Inl e)
               | Some (Inr None) \<Rightarrow>
                   if rho (Variable x1) \<noteq> None then Some (Inl TypeError) else Some (Inr None)
               | Some (Inr (Some r)) \<Rightarrow> Some (Inr (Some (r(Variable x1 := None))))))
      | _ \<Rightarrow> Some (Inr None))"
| "matchs (Suc k) ((p, c) # rest) (Some rho) =
     (if p = c then matchs k rest (Some rho) else Some (Inr None))"

section \<open>Canonical encoding (util.py)\<close>

text \<open>
  util.py, \<open>fmla_stringify\<close>. \<open>op_dict\<close> is the dict of operator symbols; looking up
  another operator raises KeyError. \<open>join\<close> is Python's \<open>str.join\<close>.
\<close>

fun op_dict :: "operator \<Rightarrow> error + string" where
  "op_dict NOT = Inr ''!''"
| "op_dict AND = Inr ''&''"
| "op_dict OR = Inr ''|''"
| "op_dict IMPLIES = Inr ''->''"
| "op_dict SAYS = Inr ''says''"
| "op_dict ISCA = Inr ''ca''"
| "op_dict oper = Inl KeyError"

fun join :: "string \<Rightarrow> string list \<Rightarrow> string" where
  "join sep [] = []"
| "join sep [s] = s"
| "join sep (s # t # ts) = s @ sep @ join sep (t # ts)"

text \<open>
  An atom prints its name. An application with arity field 0 prints \<open>true\<close> or
  \<open>false\<close>; with arity field 1 it prints the operator symbol and \<open>args[0]\<close> in
  parentheses; otherwise \<open>sign\<close>, \<open>iskey\<close>, \<open>open\<close> and the template print their first
  two arguments, and any other operator joins all its arguments with its symbol.
\<close>

fun fmla_stringify :: "formula \<Rightarrow> error + string"
  and stringify_args :: "formula list \<Rightarrow> error + string list" where
  "fmla_stringify (Variable i) = Inr i"
| "fmla_stringify (Resource i) = Inr i"
| "fmla_stringify (Agent i) = Inr i"
| "fmla_stringify (Key i) = Inr i"
| "fmla_stringify (App oper arity args) =
     (if arity = 0 then Inr (if oper = TRUE then ''true'' else ''false'')
      else if arity = 1 then
        (case op_dict oper of
           Inl e \<Rightarrow> Inl e
         | Inr s \<Rightarrow>
            (case args of
               [] \<Rightarrow> Inl IndexError
             | a0 # _ \<Rightarrow>
                (case fmla_stringify a0 of
                   Inl e \<Rightarrow> Inl e
                 | Inr s0 \<Rightarrow> Inr (s @ ''('' @ s0 @ '')''))))
      else if oper \<in> {SIGN, ISKEY, OPEN, OTHER} then
        (case args of
           [] \<Rightarrow> Inl IndexError
         | a0 # as \<Rightarrow>
            (case fmla_stringify a0 of
               Inl e \<Rightarrow> Inl e
             | Inr s0 \<Rightarrow>
                (case as of
                   [] \<Rightarrow> Inl IndexError
                 | a1 # _ \<Rightarrow>
                    (case fmla_stringify a1 of
                       Inl e \<Rightarrow> Inl e
                     | Inr s1 \<Rightarrow>
                        Inr (if oper = SIGN then ''sign(('' @ s0 @ ''), '' @ s1 @ '')''
                             else if oper = ISKEY then ''iskey('' @ s0 @ '', '' @ s1 @ '')''
                             else if oper = OPEN then ''open('' @ s0 @ '', '' @ s1 @ '')''
                             else s0 @ ''('' @ s1 @ '')'')))))
      else
        (case op_dict oper of
           Inl e \<Rightarrow> Inl e
         | Inr s \<Rightarrow>
            (case stringify_args args of
               Inl e \<Rightarrow> Inl e
             | Inr ss \<Rightarrow> Inr (''('' @ join ('' '' @ s @ '' '') ss @ '')''))))"
| "fmla_stringify (Forall x p) =
     (case fmla_stringify p of
        Inl e \<Rightarrow> Inl e
      | Inr s \<Rightarrow> Inr (''(@'' @ x @ '' . ('' @ s @ ''))''))"
| "stringify_args [] = Inr []"
| "stringify_args (a # as) =
     (case fmla_stringify a of
        Inl e \<Rightarrow> Inl e
      | Inr s \<Rightarrow> (case stringify_args as of Inl e \<Rightarrow> Inl e | Inr ss \<Rightarrow> Inr (s # ss)))"

section \<open>Judgements, sequents, rules and proofs (logic.py)\<close>

text \<open>
  The agent of an affirmation is declared \<open>Agent | Variable\<close>, and \<open>apply_judgement\<close>
  can put any formula there, so it is a formula. A premise of a proof is a proof or a
  sequent (an open obligation).
\<close>

datatype judgement = Proposition formula | Affirmation formula formula

datatype sequent = Sequent (gamma: "judgement list") (delta: judgement)

datatype rule = Rule "sequent list" sequent (name: string)

datatype prooftree = Proof (premises_of: "premise list") (conclusion: sequent) (rule: rule)
  and premise = SubProof prooftree | Leaf sequent

section \<open>Verifier (verifier.py)\<close>

text \<open>Sequencing of computations that can raise, and a list comprehension over them.\<close>

definition bindE :: "error + 'a \<Rightarrow> ('a \<Rightarrow> error + 'b) \<Rightarrow> error + 'b" where
  "bindE m f = (case m of Inl e \<Rightarrow> Inl e | Inr v \<Rightarrow> f v)"

fun mapE :: "('a \<Rightarrow> error + 'b) \<Rightarrow> 'a list \<Rightarrow> error + 'b list" where
  "mapE f [] = Inr []"
| "mapE f (x # xs) = bindE (f x) (\<lambda>y. bindE (mapE f xs) (\<lambda>ys. Inr (y # ys)))"

text \<open>
  Field reads and \<open>isinstance\<close> tests. Both kinds of judgement have the field \<open>p\<close>; only
  an affirmation has \<open>a\<close>. \<open>arg f i\<close> is \<open>f.args[i]\<close>, \<open>index xs i\<close> is \<open>xs[i]\<close>; the
  gamma and delta of a premise are read from the sequent itself or from the conclusion
  of the sub-proof.
\<close>

fun judgement_p :: "judgement \<Rightarrow> formula" where
  "judgement_p (Proposition q) = q"
| "judgement_p (Affirmation a q) = q"

fun judgement_a :: "judgement \<Rightarrow> error + formula" where
  "judgement_a (Affirmation a q) = Inr a"
| "judgement_a (Proposition q) = Inl AttributeError"

fun is_Proposition :: "judgement \<Rightarrow> bool" where
  "is_Proposition (Proposition q) = True"
| "is_Proposition (Affirmation a q) = False"

fun is_app :: "operator \<Rightarrow> formula \<Rightarrow> bool" where
  "is_app oper (App o2 n args) = (o2 = oper)"
| "is_app oper p = False"

fun is_Forall :: "formula \<Rightarrow> bool" where
  "is_Forall (Forall x q) = True"
| "is_Forall p = False"

fun arg :: "formula \<Rightarrow> nat \<Rightarrow> error + formula" where
  "arg (App oper n args) i = (if i < length args then Inr (args ! i) else Inl IndexError)"
| "arg p i = Inl AttributeError"

fun index :: "'a list \<Rightarrow> nat \<Rightarrow> error + 'a" where
  "index xs i = (if i < length xs then Inr (xs ! i) else Inl IndexError)"

fun premise_gamma :: "premise \<Rightarrow> judgement list" where
  "premise_gamma (Leaf s) = gamma s"
| "premise_gamma (SubProof pf) = gamma (conclusion pf)"

fun premise_delta :: "premise \<Rightarrow> judgement" where
  "premise_delta (Leaf s) = delta s"
| "premise_delta (SubProof pf) = delta (conclusion pf)"

text \<open>util.py, \<open>allvars\<close>, for formulas, judgements and sequents.\<close>

fun allvars :: "formula \<Rightarrow> formula set" where
  "allvars (Variable x) = {Variable x}"
| "allvars (App oper n args) = (\<Union>a \<in> set args. allvars a)"
| "allvars (Forall x q) = allvars q - {Variable x}"
| "allvars p = {}"

fun allvars_judgement :: "judgement \<Rightarrow> formula set" where
  "allvars_judgement (Proposition q) = allvars q"
| "allvars_judgement (Affirmation (Variable x) q) = {Variable x} \<union> allvars q"
| "allvars_judgement (Affirmation (Agent a) q) = allvars q"
| "allvars_judgement (Affirmation a q) = {}"

definition allvars_sequent :: "sequent \<Rightarrow> formula set" where
  "allvars_sequent s = allvars_judgement (delta s) \<union> (\<Union>q \<in> set (gamma s). allvars_judgement q)"

text \<open>
  The step checkers, with \<open>feedback=False\<close>, the mode in which \<open>verify_request\<close> calls
  them: the feedback only prints. Each returns \<open>Inr True\<close> for a legal step, \<open>Inr False\<close>
  for an illegal one, \<open>Inl e\<close> when it raises. The checks are in the source's order.
\<close>

definition verify_identity :: "prooftree \<Rightarrow> error + bool" where
  "verify_identity pf =
     (if length (premises_of pf) > 0 then Inr False
      else if \<not> is_Proposition (delta (conclusion pf)) then Inr False
      else if delta (conclusion pf) \<notin> set (gamma (conclusion pf)) then Inr False
      else Inr True)"

text \<open>
  \<open>verify_botl\<close>: the third test of the source prints its feedback and has no
  \<open>return False\<close>; both branches go on to \<open>return True\<close>.
\<close>

definition verify_botl :: "prooftree \<Rightarrow> error + bool" where
  "verify_botl pf =
     (if length (premises_of pf) > 0 then Inr False
      else if \<not> is_Proposition (delta (conclusion pf)) then Inr False
      else if Proposition (App FALSE 0 []) \<notin> set (gamma (conclusion pf)) then Inr True
      else Inr True)"

definition verify_impright :: "prooftree \<Rightarrow> error + bool" where
  "verify_impright pf =
     (if length (premises_of pf) \<noteq> 1 then Inr False
      else if \<not> is_Proposition (delta (conclusion pf)) then Inr False
      else if \<not> is_app IMPLIES (judgement_p (delta (conclusion pf))) then Inr False
      else
        bindE (arg (judgement_p (delta (conclusion pf))) 0) (\<lambda>ant.
        bindE (arg (judgement_p (delta (conclusion pf))) 1) (\<lambda>suc.
          let g = premise_gamma (premises_of pf ! 0);
              d = premise_delta (premises_of pf ! 0)
          in if Proposition suc \<noteq> d then Inr False
             else if set g - (set (gamma (conclusion pf)) \<union> {Proposition ant}) \<noteq> {}
               then Inr False
             else Inr True)))"

definition verify_impleft :: "prooftree \<Rightarrow> error + bool" where
  "verify_impleft pf =
     (if {p \<in> set (gamma (conclusion pf)). is_app IMPLIES (judgement_p p)} = {} then Inr False
      else if length (premises_of pf) \<noteq> 2 then Inr False
      else
        let gamma0 = premise_gamma (premises_of pf ! 0);
            delta0 = premise_delta (premises_of pf ! 0);
            gamma1 = premise_gamma (premises_of pf ! 1);
            delta1 = premise_delta (premises_of pf ! 1)
        in if delta (conclusion pf) \<noteq> delta1 then Inr False
           else if set gamma0 - set (gamma (conclusion pf)) \<noteq> {} then Inr False
           else if {p \<in> set gamma1 - set (gamma (conclusion pf)).
                      Proposition (App IMPLIES 2 [judgement_p delta0, judgement_p p])
                        \<notin> set (gamma (conclusion pf))} \<noteq> {}
             then Inr False
           else Inr True)"

text \<open>
  \<open>verify_leftforall\<close> turns the symmetric difference of two sets of judgements into a
  list and reads its first two elements. The order in which Python iterates over a set is
  fixed by the hash table, not by the language; the model takes it as a parameter
  \<open>ord\<close>, applied to a list of the set's elements. The last test of the source only
  prints; the set \<open>sub_gamma\<close> is still computed, and computing it can raise.
\<close>

type_synonym set_order = "judgement list \<Rightarrow> judgement list"

definition verify_leftforall :: "set_order \<Rightarrow> nat \<Rightarrow> prooftree \<Rightarrow> (error + bool) option" where
  "verify_leftforall ord k pf =
     (if {p \<in> set (gamma (conclusion pf)). is_Forall (judgement_p p)} = {} then Some (Inr False)
      else if length (premises_of pf) \<noteq> 1 then Some (Inr False)
      else
        let d = premise_delta (premises_of pf ! 0);
            g = premise_gamma (premises_of pf ! 0);
            cg = gamma (conclusion pf)
        in if delta (conclusion pf) \<noteq> d then Some (Inr False)
           else
             let prems = ord ([p \<leftarrow> g. p \<notin> set cg] @ [p \<leftarrow> cg. p \<notin> set g])
             in if length prems > 2 then Some (Inr False)
                else
                  (case index prems 0 of
                     Inl e \<Rightarrow> Some (Inl e)
                   | Inr p0 \<Rightarrow>
                      (case index prems 1 of
                         Inl e \<Rightarrow> Some (Inl e)
                       | Inr p1 \<Rightarrow>
                          let eq0 = (if p0 \<in> set cg then judgement_p p0 else judgement_p p1);
                              eq1 = (if p0 \<in> set cg then judgement_p p1 else judgement_p p0)
                          in (case eq0 of
                                Forall x body \<Rightarrow>
                                  (case matchs k [(body, eq1)] (Some Map.empty) of
                                     None \<Rightarrow> None
                                   | Some (Inl e) \<Rightarrow> Some (Inl e)
                                   | Some (Inr None) \<Rightarrow> Some (Inr False)
                                   | Some (Inr (Some rho)) \<Rightarrow>
                                      (case rho (Variable x) of
                                         None \<Rightarrow> Some (Inr False)
                                       | Some e \<Rightarrow>
                                          (case apply_formula body [Variable x \<mapsto> e] of
                                             Inl err \<Rightarrow> Some (Inl err)
                                           | Inr inst \<Rightarrow>
                                              if inst \<noteq> eq1 then Some (Inr False)
                                              else
                                                (case mapE (\<lambda>p. case judgement_p p of
                                                                 Forall y q \<Rightarrow>
                                                                   apply_formula q [Variable x \<mapsto> e]
                                                               | _ \<Rightarrow> Inl AttributeError)
                                                        [p \<leftarrow> cg. is_Forall (judgement_p p)] of
                                                   Inl err \<Rightarrow> Some (Inl err)
                                                 | Inr sub_gamma \<Rightarrow> Some (Inr True)))))
                              | _ \<Rightarrow> Some (Inl AttributeError)))))"

definition verify_rightforall :: "nat \<Rightarrow> prooftree \<Rightarrow> (error + bool) option" where
  "verify_rightforall k pf =
     (if \<not> is_Proposition (delta (conclusion pf)) then Some (Inr False)
      else
        (case judgement_p (delta (conclusion pf)) of
           Forall v body \<Rightarrow>
             if length (premises_of pf) \<noteq> 1 then Some (Inr False)
             else
               let d = premise_delta (premises_of pf ! 0)
               in (case matchs k [(body, judgement_p d)] (Some Map.empty) of
                     None \<Rightarrow> None
                   | Some (Inl e) \<Rightarrow> Some (Inl e)
                   | Some (Inr None) \<Rightarrow> Some (Inr False)
                   | Some (Inr (Some rho)) \<Rightarrow>
                      (case rho (Variable v) of
                         None \<Rightarrow> Some (Inr False)
                       | Some w \<Rightarrow>
                          (case apply_formula body rho of
                             Inl e \<Rightarrow> Some (Inl e)
                           | Inr inst \<Rightarrow>
                              if inst \<noteq> judgement_p d then Some (Inr False)
                              else if w \<in> allvars_sequent (conclusion pf) then Some (Inr False)
                              else Some (Inr True))))
         | _ \<Rightarrow> Some (Inr False)))"

definition verify_weaken :: "prooftree \<Rightarrow> error + bool" where
  "verify_weaken pf =
     (if length (premises_of pf) \<noteq> 1 then Inr False
      else
        let d = premise_delta (premises_of pf ! 0);
            g = premise_gamma (premises_of pf ! 0)
        in if delta (conclusion pf) \<noteq> d then Inr False
           else if \<not> set g \<subseteq> set (gamma (conclusion pf)) then Inr False
           else Inr True)"

definition verify_cut :: "prooftree \<Rightarrow> error + bool" where
  "verify_cut pf =
     (if length (premises_of pf) \<noteq> 2 then Inr False
      else
        let prem0_delta = premise_delta (premises_of pf ! 0);
            prem1_delta = premise_delta (premises_of pf ! 1);
            prem0_gamma = premise_gamma (premises_of pf ! 0);
            prem1_gamma = premise_gamma (premises_of pf ! 1)
        in if delta (conclusion pf) \<noteq> prem1_delta then Inr False
           else if set prem0_gamma - set (gamma (conclusion pf)) \<noteq> {} then Inr False
           else if set prem1_gamma - (set (gamma (conclusion pf)) \<union> {prem0_delta}) \<noteq> {}
             then Inr False
           else Inr True)"

definition verify_aff :: "prooftree \<Rightarrow> error + bool" where
  "verify_aff pf =
     (if length (premises_of pf) \<noteq> 1 then Inr False
      else
        let d = premise_delta (premises_of pf ! 0);
            g = premise_gamma (premises_of pf ! 0)
        in if is_Proposition (delta (conclusion pf)) then Inr False
           else if \<not> is_Proposition d then Inr False
           else if judgement_p (delta (conclusion pf)) \<noteq> judgement_p d then Inr False
           else if \<not> set g \<subseteq> set (gamma (conclusion pf)) then Inr False
           else Inr True)"

definition verify_saysleft :: "prooftree \<Rightarrow> error + bool" where
  "verify_saysleft pf =
     (if {p \<in> set (gamma (conclusion pf)). is_app SAYS (judgement_p p)} = {} then Inr False
      else if length (premises_of pf) \<noteq> 1 then Inr False
      else if is_Proposition (delta (conclusion pf)) then Inr False
      else
        bindE (judgement_a (delta (conclusion pf))) (\<lambda>ag.
          let d = premise_delta (premises_of pf ! 0);
              g = premise_gamma (premises_of pf ! 0)
          in if delta (conclusion pf) \<noteq> d then Inr False
             else if {p \<in> set g - set (gamma (conclusion pf)).
                        Proposition (App SAYS 2 [ag, judgement_p p])
                          \<notin> set (gamma (conclusion pf))} \<noteq> {}
               then Inr False
             else Inr True))"

definition verify_saysright :: "prooftree \<Rightarrow> error + bool" where
  "verify_saysright pf =
     (if \<not> is_Proposition (delta (conclusion pf)) then Inr False
      else if \<not> is_app SAYS (judgement_p (delta (conclusion pf))) then Inr False
      else if length (premises_of pf) \<noteq> 1 then Inr False
      else
        let d = premise_delta (premises_of pf ! 0);
            g = premise_gamma (premises_of pf ! 0)
        in if is_Proposition d then Inr False
           else
             bindE (arg (judgement_p (delta (conclusion pf))) 0) (\<lambda>says_ag.
             bindE (judgement_a d) (\<lambda>aff_ag.
             bindE (arg (judgement_p (delta (conclusion pf))) 1) (\<lambda>says_p.
               if says_ag \<noteq> aff_ag then Inr False
               else if says_p \<noteq> judgement_p d then Inr False
               else if \<not> set g \<subseteq> set (gamma (conclusion pf)) then Inr False
               else Inr True))))"

definition verify_sign :: "prooftree \<Rightarrow> error + bool" where
  "verify_sign pf =
     (if \<not> is_Proposition (delta (conclusion pf)) then Inr False
      else if \<not> is_app SAYS (judgement_p (delta (conclusion pf))) then Inr False
      else if length (premises_of pf) \<noteq> 2 then Inr False
      else
        let gamma0 = premise_gamma (premises_of pf ! 0);
            delta0 = premise_delta (premises_of pf ! 0);
            gamma1 = premise_gamma (premises_of pf ! 1);
            delta1 = premise_delta (premises_of pf ! 1)
        in bindE (arg (judgement_p (delta (conclusion pf))) 0) (\<lambda>ag.
           bindE (arg (judgement_p (delta (conclusion pf))) 1) (\<lambda>p.
             if \<not> is_Proposition delta0 then Inr False
             else if \<not> is_app ISKEY (judgement_p delta0) then Inr False
             else if \<not> is_Proposition delta1 then Inr False
             else if \<not> is_app SIGN (judgement_p delta1) then Inr False
             else
               bindE (arg (judgement_p delta0) 0) (\<lambda>key_ag.
                 if ag \<noteq> key_ag then Inr False
                 else
                   bindE (arg (judgement_p delta1) 0) (\<lambda>signed.
                     if p \<noteq> signed then Inr False
                     else
                       bindE (arg (judgement_p delta0) 1) (\<lambda>k0.
                       bindE (arg (judgement_p delta1) 1) (\<lambda>k1.
                         if k0 \<noteq> k1 then Inr False
                         else if \<not> set gamma0 \<subseteq> set (gamma (conclusion pf)) then Inr False
                         else if \<not> set gamma1 \<subseteq> set (gamma (conclusion pf)) then Inr False
                         else Inr True)))))))"

definition verify_cert_step :: "prooftree \<Rightarrow> error + bool" where
  "verify_cert_step pf =
     (if \<not> is_Proposition (delta (conclusion pf)) then Inr False
      else if \<not> is_app ISKEY (judgement_p (delta (conclusion pf))) then Inr False
      else if length (premises_of pf) \<noteq> 2 then Inr False
      else
        let gamma0 = premise_gamma (premises_of pf ! 0);
            delta0 = premise_delta (premises_of pf ! 0);
            gamma1 = premise_gamma (premises_of pf ! 1);
            delta1 = premise_delta (premises_of pf ! 1)
        in bindE (arg (judgement_p (delta (conclusion pf))) 0) (\<lambda>ag.
           bindE (arg (judgement_p (delta (conclusion pf))) 1) (\<lambda>k.
             if \<not> is_Proposition delta0 then Inr False
             else if \<not> is_app ISCA (judgement_p delta0) then Inr False
             else if \<not> is_Proposition delta1 then Inr False
             else if \<not> is_app SAYS (judgement_p delta1) then Inr False
             else
               bindE (arg (judgement_p delta1) 1) (\<lambda>said.
                 if \<not> is_app ISKEY said then Inr False
                 else
                   bindE (arg said 0) (\<lambda>said_ag.
                     if ag \<noteq> said_ag then Inr False
                     else
                       bindE (arg (judgement_p delta0) 0) (\<lambda>ca0.
                       bindE (arg (judgement_p delta1) 0) (\<lambda>ca1.
                         if ca0 \<noteq> ca1 then Inr False
                         else
                           bindE (arg said 1) (\<lambda>said_k.
                             if k \<noteq> said_k then Inr False
                             else if \<not> set gamma0 \<subseteq> set (gamma (conclusion pf)) then Inr False
                             else if \<not> set gamma1 \<subseteq> set (gamma (conclusion pf)) then Inr False
                             else Inr True))))))))"

text \<open>proofrules.py: the names of the rules in \<open>calculus\<close>.\<close>

definition calculus :: "string list" where
  "calculus = [''id'', ''botL'', ''->R'', ''->L'', ''->Laff'', ''@R'', ''@L'', ''@Laff'', ''W'',
               ''cut'', ''affcut'', ''aff'', ''saysL'', ''saysR'', ''sign'', ''cert'']"

text \<open>
  proofrules.py: the rules that the example proof below uses, with the sequents that
  the grammar of parser.py gives their strings. The verifier reads only a rule's name.
\<close>

definition identityRule :: rule where
  "identityRule = Rule [] (Sequent [Proposition (Variable ''P'')] (Proposition (Variable ''P''))) ''id''"

definition signRule :: rule where
  "signRule =
     Rule [Sequent [] (Proposition (App ISKEY 2 [Variable ''A'', Variable ''pk''])),
           Sequent [] (Proposition (App SIGN 2 [Variable ''P'', Variable ''pk'']))]
          (Sequent [] (Proposition (App SAYS 2 [Variable ''A'', Variable ''P''])))
          ''sign''"

definition certRule :: rule where
  "certRule =
     Rule [Sequent [] (Proposition (App ISCA 1 [Variable ''A''])),
           Sequent [] (Proposition
              (App SAYS 2 [Variable ''A'', App ISKEY 2 [Variable ''B'', Variable ''pk'']]))]
          (Sequent [] (Proposition (App ISKEY 2 [Variable ''B'', Variable ''pk''])))
          ''cert''"

definition verify_step :: "set_order \<Rightarrow> nat \<Rightarrow> prooftree \<Rightarrow> (error + bool) option" where
  "verify_step ord k pf =
     (let n = name (rule pf) in
      if n \<notin> set calculus then Some (Inr False)
      else if n = ''id'' then Some (verify_identity pf)
      else if n = ''botL'' then Some (verify_botl pf)
      else if n = ''->R'' then Some (verify_impright pf)
      else if n = ''->L'' \<or> n = ''->Laff'' then Some (verify_impleft pf)
      else if n = ''@L'' \<or> n = ''@Laff'' then verify_leftforall ord k pf
      else if n = ''@R'' then verify_rightforall k pf
      else if n = ''W'' then Some (verify_weaken pf)
      else if n = ''cut'' \<or> n = ''affcut'' then Some (verify_cut pf)
      else if n = ''aff'' then Some (verify_aff pf)
      else if n = ''saysL'' then Some (verify_saysleft pf)
      else if n = ''saysR'' then Some (verify_saysright pf)
      else if n = ''sign'' then Some (verify_sign pf)
      else if n = ''cert'' then Some (verify_cert_step pf)
      else Some (Inr False))"

text \<open>
  \<open>verify\<close>: an illegal step returns its conclusion; a legal one returns its sequent
  premises followed by what the sub-proofs return, in order. The fuel is the one of
  \<open>matchs\<close>, which the two quantifier checkers call.
\<close>

fun leaves :: "premise list \<Rightarrow> sequent list" where
  "leaves [] = []"
| "leaves (Leaf s # ps) = s # leaves ps"
| "leaves (SubProof pf # ps) = leaves ps"

fun verify :: "set_order \<Rightarrow> nat \<Rightarrow> prooftree \<Rightarrow> (error + sequent list) option"
  and verify_subproofs :: "set_order \<Rightarrow> nat \<Rightarrow> premise list \<Rightarrow> (error + sequent list) option" where
  "verify ord k (Proof ps c r) =
     (case verify_step ord k (Proof ps c r) of
        None \<Rightarrow> None
      | Some (Inl e) \<Rightarrow> Some (Inl e)
      | Some (Inr False) \<Rightarrow> Some (Inr [c])
      | Some (Inr True) \<Rightarrow>
         (case verify_subproofs ord k ps of
            None \<Rightarrow> None
          | Some (Inl e) \<Rightarrow> Some (Inl e)
          | Some (Inr obs) \<Rightarrow> Some (Inr (leaves ps @ obs))))"
| "verify_subproofs ord k [] = Some (Inr [])"
| "verify_subproofs ord k (Leaf s # ps) = verify_subproofs ord k ps"
| "verify_subproofs ord k (SubProof pf # ps) =
     (case verify ord k pf of
        None \<Rightarrow> None
      | Some (Inl e) \<Rightarrow> Some (Inl e)
      | Some (Inr obs) \<Rightarrow>
         (case verify_subproofs ord k ps of
            None \<Rightarrow> None
          | Some (Inl e) \<Rightarrow> Some (Inl e)
          | Some (Inr obs') \<Rightarrow> Some (Inr (obs @ obs'))))"

section \<open>Rebasing (crypto.py)\<close>

text \<open>
  crypto.py, \<open>rebase_proof\<close>. On a sequent: an assumption \<open>sign(...)\<close> is kept only if
  it is in the new gamma, every other assumption is kept; the result is
  \<open>list(set(new_gamma) | set(gamma))\<close>, whose order is the parameter \<open>ord\<close>. On a proof:
  the conclusion and every premise are rebased, the rule is kept.
\<close>

definition rebase_sequent :: "set_order \<Rightarrow> sequent \<Rightarrow> judgement list \<Rightarrow> sequent" where
  "rebase_sequent ord s g =
     Sequent (ord ([p \<leftarrow> gamma s. \<not> is_app SIGN (judgement_p p) \<or> p \<in> set g] @ g)) (delta s)"

fun rebase_proof :: "set_order \<Rightarrow> prooftree \<Rightarrow> judgement list \<Rightarrow> prooftree"
  and rebase_premises :: "set_order \<Rightarrow> premise list \<Rightarrow> judgement list \<Rightarrow> premise list" where
  "rebase_proof ord (Proof ps c r) g = Proof (rebase_premises ord ps g) (rebase_sequent ord c g) r"
| "rebase_premises ord [] g = []"
| "rebase_premises ord (SubProof pf # ps) g = SubProof (rebase_proof ord pf g) # rebase_premises ord ps g"
| "rebase_premises ord (Leaf s # ps) g = Leaf (rebase_sequent ord s g) # rebase_premises ord ps g"

section \<open>Credentials, certificates and access requests (crypto.py)\<close>

text \<open>
  The dataclasses of crypto.py. The field \<open>p\<close> of a credential is \<open>cred_p\<close>, and the
  fields \<open>proof\<close> and \<open>signature\<close> of a request are \<open>req_proof\<close> and \<open>req_signature\<close>.
  Agents in these fields are declared \<open>Agent\<close> and are represented by their id; keys are
  represented by their raw bytes.
\<close>

record credential =
  cred_p :: formula
  signator :: string
  signature :: string

record certificate =
  public_key :: string
  agent :: string
  cred :: credential

record access_request =
  req_proof :: prooftree
  req_signature :: credential
  creds :: "credential list"
  certs :: "certificate list"

text \<open>
  What the code takes from outside the repository: the MD5 digest and the Ed25519
  signature check of the libraries, and \<open>bytes.fromhex\<close>. \<open>ed25519_verify\<close> is \<open>False\<close>
  where the library raises InvalidSignature.
\<close>

record env =
  md5_hexdigest :: "string \<Rightarrow> string"
  fromhex :: "string \<Rightarrow> error + string"
  ed25519_verify :: "string \<Rightarrow> string \<Rightarrow> string \<Rightarrow> bool"

text \<open>
  \<open>fingerprint\<close>: the hexadecimal digest, two characters at a time, joined by colons, in
  brackets. \<open>key_fingerprint\<close> reads the field \<open>fingerprint\<close>, which only a Key has.
\<close>

fun byte_pairs :: "string \<Rightarrow> string list" where
  "byte_pairs (a # b # cs) = [a, b] # byte_pairs cs"
| "byte_pairs cs = []"

definition fingerprint :: "env \<Rightarrow> string \<Rightarrow> string" where
  "fingerprint env key = ''['' @ join '':'' (byte_pairs (md5_hexdigest env key)) @ '']''"

definition key_fingerprint :: "formula \<Rightarrow> error + string" where
  "key_fingerprint k = (case k of Key fp \<Rightarrow> Inr fp | _ \<Rightarrow> Inl AttributeError)"

text \<open>
  crypto.py, \<open>verify_cert\<close>. The recursion follows the chain from a certificate to the
  certificate of its signator and stops only at a self-signed one, so the model counts
  the calls (\<open>None\<close>: the fuel ran out). \<open>chain[cert.cred.signator]\<close> is read before the
  signature is checked, and the test that the signator is in the chain comes after both.
\<close>

fun verify_cert ::
  "env \<Rightarrow> nat \<Rightarrow> certificate \<Rightarrow> (string \<rightharpoonup> certificate) \<Rightarrow> certificate list \<Rightarrow> (error + bool) option"
where
  "verify_cert env 0 cert chain roots = None"
| "verify_cert env (Suc n) cert chain roots =
     (case cred_p (cred cert) of
        App oper arity args \<Rightarrow>
          (case args of
             [a, key] \<Rightarrow>
               if oper = ISKEY \<and> arity = 2 \<and> a = Agent (agent cert) then
                 (case key_fingerprint key of
                    Inl e \<Rightarrow> Some (Inl e)
                  | Inr fp \<Rightarrow>
                     if fingerprint env (public_key cert) \<noteq> fp then Some (Inr False)
                     else
                       (case chain (signator (cred cert)) of
                          None \<Rightarrow> Some (Inl KeyError)
                        | Some signer \<Rightarrow>
                           (case fromhex env (signature (cred cert)) of
                              Inl e \<Rightarrow> Some (Inl e)
                            | Inr sig \<Rightarrow>
                               (case fmla_stringify (cred_p (cred cert)) of
                                  Inl e \<Rightarrow> Some (Inl e)
                                | Inr msg \<Rightarrow>
                                   if \<not> ed25519_verify env (public_key signer) sig msg
                                     then Some (Inr False)
                                   else if signator (cred cert) \<notin> dom chain then Some (Inr False)
                                   else if agent cert = signator (cred cert)
                                     then Some (Inr (if length roots > 0 then cert \<in> set roots
                                                     else True))
                                   else verify_cert env n signer chain roots))))
               else Some (Inr False)
           | _ \<Rightarrow> Some (Inr False))
      | _ \<Rightarrow> Some (Inr False))"

text \<open>\<open>Credential.verify_signature\<close> with a given key.\<close>

definition verify_signature :: "env \<Rightarrow> credential \<Rightarrow> string \<Rightarrow> error + bool" where
  "verify_signature env c pk =
     bindE (fromhex env (signature c)) (\<lambda>sig.
     bindE (fmla_stringify (cred_p c)) (\<lambda>msg.
       Inr (ed25519_verify env pk sig msg)))"

text \<open>
  crypto.py, \<open>verify_request\<close>: the dict from agents to certificates (a later
  certificate of the same agent replaces an earlier one), the loop over the
  certificates and the loop over the credentials, each returning \<open>None\<close> (here
  \<open>Inr None\<close>) at the first one that does not verify. The next statement is
  \<open>cas = get_cas(req.proof.conclusion)\<close>. \<open>get_cas\<close> is defined in util.py, and crypto.py
  imports from util only \<open>stringify\<close>; no other import of crypto.py binds the name. So
  the name lookup raises NameError before the argument is evaluated, and the statements
  after it (the assumptions built from the evidence, the rebasing, the call of \<open>verify\<close>
  and \<open>Credential.from_formula\<close>) are never reached. The roots are the certificates that
  \<open>verify_cert\<close> compares with.
\<close>

definition cert_chain_of :: "certificate list \<Rightarrow> (string \<rightharpoonup> certificate)" where
  "cert_chain_of cs = foldl (\<lambda>chain c. chain(agent c \<mapsto> c)) Map.empty cs"

definition chain_lookup :: "(string \<rightharpoonup> certificate) \<Rightarrow> formula \<Rightarrow> error + certificate" where
  "chain_lookup chain a =
     (case a of
        Agent i \<Rightarrow> (case chain i of None \<Rightarrow> Inl KeyError | Some c \<Rightarrow> Inr c)
      | _ \<Rightarrow> Inl KeyError)"

fun check_certs ::
  "env \<Rightarrow> nat \<Rightarrow> certificate list \<Rightarrow> (string \<rightharpoonup> certificate) \<Rightarrow> certificate list \<Rightarrow> (error + bool) option"
where
  "check_certs env k [] chain roots = Some (Inr True)"
| "check_certs env k (c # cs) chain roots =
     (case verify_cert env k c chain roots of
        None \<Rightarrow> None
      | Some (Inl e) \<Rightarrow> Some (Inl e)
      | Some (Inr ok) \<Rightarrow> if ok then check_certs env k cs chain roots else Some (Inr False))"

fun check_creds :: "env \<Rightarrow> credential list \<Rightarrow> (string \<rightharpoonup> certificate) \<Rightarrow> error + bool" where
  "check_creds env [] chain = Inr True"
| "check_creds env (c # cs) chain =
     bindE (chain_lookup chain (Agent (signator c))) (\<lambda>signer.
     bindE (verify_signature env c (public_key signer)) (\<lambda>ok.
       if ok then check_creds env cs chain else Inr False))"

definition verify_request ::
  "env \<Rightarrow> nat \<Rightarrow> access_request \<Rightarrow> certificate list \<Rightarrow> (error + credential option) option"
where
  "verify_request env k req roots =
     (let cert_chain = cert_chain_of (certs req) in
      case check_certs env k (certs req) cert_chain roots of
        None \<Rightarrow> None
      | Some (Inl e) \<Rightarrow> Some (Inl e)
      | Some (Inr certs_ok) \<Rightarrow>
         if \<not> certs_ok then Some (Inr None)
         else
           (case check_creds env (creds req) cert_chain of
              Inl e \<Rightarrow> Some (Inl e)
            | Inr creds_ok \<Rightarrow>
               if \<not> creds_ok then Some (Inr None)
               else Some (Inl NameError)))"

section \<open>Notions used to state the properties\<close>

text \<open>
  \<open>inert D q\<close>: the formula \<open>q\<close> contains no template application and no variable
  of the set \<open>D\<close>. A substitution with domain inside \<open>D\<close> leaves such a formula as it is.
\<close>

fun inert :: "formula set \<Rightarrow> formula \<Rightarrow> bool" where
  "inert D (Variable x) = (Variable x \<notin> D)"
| "inert D (App oper n args) = (oper \<noteq> OTHER \<and> list_all (inert D) args)"
| "inert D (Forall x p) = inert D p"
| "inert D p = True"

text \<open>
  The data model's invariant: the arity field of every application is the length of its
  argument list.
\<close>

fun wf_formula :: "formula \<Rightarrow> bool" where
  "wf_formula (App oper n args) = (n = int (length args) \<and> list_all wf_formula args)"
| "wf_formula (Forall x p) = wf_formula p"
| "wf_formula p = True"

text \<open>A pattern without quantifier and without template application.\<close>

fun first_order :: "formula \<Rightarrow> bool" where
  "first_order (App oper n args) = (oper \<noteq> OTHER \<and> list_all first_order args)"
| "first_order (Forall x p) = False"
| "first_order p = True"

text \<open>An equation whose pattern is first-order and whose two sides are well formed.\<close>

definition pattern_eq :: "formula \<times> formula \<Rightarrow> bool" where
  "pattern_eq e = (first_order (fst e) \<and> wf_formula (fst e) \<and> wf_formula (snd e))"

text \<open>
  What every iteration order of a Python set satisfies: the list has the elements of the
  set, each once.
\<close>

definition faithful_order :: "set_order \<Rightarrow> bool" where
  "faithful_order ord = (\<forall>xs. set (ord xs) = set xs \<and> distinct (ord xs))"

text \<open>
  Two sequents that differ at most in the order of their assumptions (the lists of
  assumptions are permutations of each other), and two proofs with the same tree and
  the same rules whose sequents at the same places differ at most in that way.
\<close>

definition same_sequent :: "sequent \<Rightarrow> sequent \<Rightarrow> bool" where
  "same_sequent s t = (delta s = delta t \<and> mset (gamma s) = mset (gamma t))"

fun same_proof :: "prooftree \<Rightarrow> prooftree \<Rightarrow> bool"
  and same_premises :: "premise list \<Rightarrow> premise list \<Rightarrow> bool" where
  "same_proof (Proof ps c r) (Proof qs d r') =
     (r = r' \<and> same_sequent c d \<and> same_premises ps qs)"
| "same_premises [] [] = True"
| "same_premises (SubProof pf # ps) (SubProof qf # qs) = (same_proof pf qf \<and> same_premises ps qs)"
| "same_premises (Leaf s # ps) (Leaf t # qs) = (same_sequent s t \<and> same_premises ps qs)"
| "same_premises ps qs = False"

section \<open>Example data\<close>

text \<open>
  A small instance of the environment for the concrete evaluations below: the digest
  of a key is the key, every string is hexadecimal, and a signature is valid when it is
  the key followed by the message.
\<close>

definition toy_env :: env where
  "toy_env = \<lparr>md5_hexdigest = (\<lambda>key. key),
              fromhex = Inr,
              ed25519_verify = (\<lambda>pk sig msg. sig = pk @ msg)\<rparr>"

text \<open>
  A certificate of the key \<open>pk\<close> for the agent \<open>a\<close>: its statement is
  \<open>iskey(a, fingerprint(pk))\<close>. Two self-signed certificates of the example.
\<close>

definition iskey_cert :: "env \<Rightarrow> string \<Rightarrow> string \<Rightarrow> string \<Rightarrow> string \<Rightarrow> certificate" where
  "iskey_cert env pk a signer sg =
     \<lparr>public_key = pk, agent = a,
      cred = \<lparr>cred_p = App ISKEY 2 [Agent a, Key (fingerprint env pk)],
              signator = signer, signature = sg\<rparr>\<rparr>"

definition toy_ca_cert :: certificate where
  "toy_ca_cert = iskey_cert toy_env ''kc'' ''#ca'' ''#ca'' ''kciskey(#ca, [kc])''"

definition toy_other_cert :: certificate where
  "toy_other_cert = iskey_cert toy_env ''ko'' ''#other'' ''#other'' ''koiskey(#other, [ko])''"

text \<open>
  An access request: the self-signed certificate of \<open>#ca\<close> and the certificate of
  \<open>#root\<close> issued by \<open>#ca\<close>, a policy credential \<open>open(#a, <r>)\<close> signed by \<open>#root\<close>, a
  proof tree with the conclusion \<open>#root says open(#a, <r>)\<close> built with the rules \<open>sign\<close>,
  \<open>cert\<close> and \<open>id\<close>, and the signature credential of the requester \<open>#a\<close>.
\<close>

definition toy_root_cert :: certificate where
  "toy_root_cert = iskey_cert toy_env ''kr'' ''#root'' ''#ca'' ''kciskey(#root, [kr])''"

definition toy_policy :: credential where
  "toy_policy = \<lparr>cred_p = App OPEN 2 [Agent ''#a'', Resource ''<r>''],
                  signator = ''#root'', signature = ''kropen(#a, <r>)''\<rparr>"

definition toy_goal :: formula where
  "toy_goal = App SAYS 2 [Agent ''#root'', App OPEN 2 [Agent ''#a'', Resource ''<r>'']]"

definition toy_sequent :: "formula \<Rightarrow> sequent" where
  "toy_sequent f = Sequent [Proposition (App ISCA 1 [Agent ''#ca''])] (Proposition f)"

definition toy_proof :: prooftree where
  "toy_proof =
     Proof
       [SubProof
          (Proof
             [SubProof (Proof [] (toy_sequent (App ISCA 1 [Agent ''#ca''])) identityRule),
              SubProof
                (Proof
                   [SubProof (Proof [] (toy_sequent (App ISKEY 2 [Agent ''#ca'', Key ''[kc]'']))
                                identityRule),
                    SubProof (Proof [] (toy_sequent
                                (App SIGN 2 [App ISKEY 2 [Agent ''#root'', Key ''[kr]''],
                                             Key ''[kc]'']))
                                identityRule)]
                   (toy_sequent
                      (App SAYS 2 [Agent ''#ca'', App ISKEY 2 [Agent ''#root'', Key ''[kr]'']]))
                   signRule)]
             (toy_sequent (App ISKEY 2 [Agent ''#root'', Key ''[kr]'']))
             certRule),
        SubProof
          (Proof [] (toy_sequent
                       (App SIGN 2 [App OPEN 2 [Agent ''#a'', Resource ''<r>''], Key ''[kr]'']))
             identityRule)]
       (toy_sequent toy_goal)
       signRule"

definition toy_request :: access_request where
  "toy_request =
     \<lparr>req_proof = toy_proof,
      req_signature = \<lparr>cred_p = toy_goal, signator = ''#a'', signature = ''ka''\<rparr>,
      creds = [toy_policy],
      certs = [toy_ca_cert, toy_root_cert]\<rparr>"

text \<open>
  An iteration order: the elements from the last to the first, each once. CPython iterates in
  this way over a set of two elements whose hashes collide in the last slot of the
  table: \<open>list(set([7, 15]))\<close> is \<open>[15, 7]\<close> and \<open>list(set([15, 7]))\<close> is \<open>[7, 15]\<close>.
\<close>

definition toy_reverse_order :: set_order where
  "toy_reverse_order xs = remdups (rev xs)"

text \<open>
  A proof by the rule \<open>cut\<close> with a subproof by \<open>id\<close> and an open leaf, whose sequents
  repeat an assumption and carry a \<open>sign\<close> assumption; two assumptions to rebase onto;
  and what the first and the second rebasing give under the order above.
\<close>

definition toy_gamma :: "judgement list" where
  "toy_gamma = [Proposition (App ISCA 1 [Agent ''#ca'']),
                Proposition (App SIGN 2 [Variable ''R'', Key ''[kr]''])]"

definition toy_cut_proof :: prooftree where
  "toy_cut_proof =
     Proof
       [SubProof (Proof [] (Sequent [Proposition (Variable ''P''), Proposition (Variable ''P''),
                                     Proposition (App SIGN 2 [Variable ''S'', Key ''[ks]''])]
                                    (Proposition (Variable ''P''))) identityRule),
        Leaf (Sequent [Proposition (Variable ''P''),
                       Proposition (App SIGN 2 [Variable ''R'', Key ''[kr]''])]
                      (Proposition (Variable ''Q'')))]
       (Sequent [Proposition (Variable ''P'')] (Proposition (Variable ''Q'')))
       (Rule [] (Sequent [] (Proposition (Variable ''Q''))) ''cut'')"

definition toy_cut_proof_once :: prooftree where
  "toy_cut_proof_once =
     Proof
       [SubProof (Proof [] (Sequent [Proposition (App SIGN 2 [Variable ''R'', Key ''[kr]'']),
                                     Proposition (App ISCA 1 [Agent ''#ca'']),
                                     Proposition (Variable ''P'')]
                                    (Proposition (Variable ''P''))) identityRule),
        Leaf (Sequent [Proposition (App ISCA 1 [Agent ''#ca'']),
                       Proposition (App SIGN 2 [Variable ''R'', Key ''[kr]'']),
                       Proposition (Variable ''P'')]
                      (Proposition (Variable ''Q'')))]
       (Sequent [Proposition (App SIGN 2 [Variable ''R'', Key ''[kr]'']),
                 Proposition (App ISCA 1 [Agent ''#ca'']),
                 Proposition (Variable ''P'')] (Proposition (Variable ''Q'')))
       (Rule [] (Sequent [] (Proposition (Variable ''Q''))) ''cut'')"

definition toy_cut_proof_twice :: prooftree where
  "toy_cut_proof_twice =
     Proof
       [SubProof (Proof [] (Sequent [Proposition (Variable ''P''),
                                     Proposition (App ISCA 1 [Agent ''#ca'']),
                                     Proposition (App SIGN 2 [Variable ''R'', Key ''[kr]''])]
                                    (Proposition (Variable ''P''))) identityRule),
        Leaf (Sequent [Proposition (Variable ''P''),
                       Proposition (App SIGN 2 [Variable ''R'', Key ''[kr]'']),
                       Proposition (App ISCA 1 [Agent ''#ca''])]
                      (Proposition (Variable ''Q'')))]
       (Sequent [Proposition (Variable ''P''),
                 Proposition (App ISCA 1 [Agent ''#ca'']),
                 Proposition (App SIGN 2 [Variable ''R'', Key ''[kr]''])] (Proposition (Variable ''Q'')))
       (Rule [] (Sequent [] (Proposition (Variable ''Q''))) ''cut'')"

section \<open>Properties of substitution (claim C8)\<close>

lemma inert_fixed:
  "inert D q \<longrightarrow> dom rho \<subseteq> D \<longrightarrow> apply_formula q rho = Inr q"
  "list_all (inert D) qs \<longrightarrow> dom rho \<subseteq> D \<longrightarrow> apply_args qs rho = Inr qs"
proof (induction q rho and qs rho rule: apply_formula_apply_args.induct)
  case (1 x rho)
  then show ?case by (auto split: option.splits)
next
  case (3 x p rho)
  show ?case
  proof (intro impI)
    assume i: "inert D (Forall x p)" and d: "dom rho \<subseteq> D"
    from d have "dom (rho(Variable x := None)) \<subseteq> D" by auto
    moreover from i have "inert D p" by simp
    ultimately have "apply_formula p (rho(Variable x := None)) = Inr p" using 3 by blast
    then show "apply_formula (Forall x p) rho = Inr (Forall x p)" by simp
  qed
qed simp_all

lemma apply_idem_gen:
  "\<forall>F'. dom rho \<subseteq> D \<longrightarrow> (\<forall>q \<in> ran rho. inert D q) \<longrightarrow> apply_formula F rho = Inr F' \<longrightarrow>
       apply_formula F' rho = Inr F'"
  "\<forall>Fs'. dom rho \<subseteq> D \<longrightarrow> (\<forall>q \<in> ran rho. inert D q) \<longrightarrow> apply_args Fs rho = Inr Fs' \<longrightarrow>
       apply_args Fs' rho = Inr Fs'"
proof (induction F rho and Fs rho rule: apply_formula_apply_args.induct)
  case (1 x rho)
  show ?case
  proof (intro allI impI)
    fix F' assume d: "dom rho \<subseteq> D" and r: "\<forall>q \<in> ran rho. inert D q"
      and a: "apply_formula (Variable x) rho = Inr F'"
    show "apply_formula F' rho = Inr F'"
    proof (cases "rho (Variable x)")
      case None
      with a show ?thesis by auto
    next
      case (Some q)
      then have "q \<in> ran rho" by (auto simp: ran_def)
      with r have "inert D q" by blast
      with d inert_fixed(1) have "apply_formula q rho = Inr q" by blast
      with a Some show ?thesis by auto
    qed
  qed
next
  case (2 oper n args rho)
  then show ?case by (auto split: list.splits sum.splits if_splits)
next
  case (3 x p rho)
  show ?case
  proof (intro allI impI)
    fix F' assume d: "dom rho \<subseteq> D" and r: "\<forall>q \<in> ran rho. inert D q"
      and a: "apply_formula (Forall x p) rho = Inr F'"
    let ?rho = "rho(Variable x := None)"
    from a obtain q where q: "apply_formula p ?rho = Inr q" and F': "F' = Forall x q"
      by (auto split: sum.splits)
    from d have d': "dom ?rho \<subseteq> D" by auto
    from r have r': "\<forall>q \<in> ran ?rho. inert D q"
      by (auto simp: ran_def split: if_splits)
    from 3 d' r' q have "apply_formula q ?rho = Inr q" by blast
    with F' show "apply_formula F' rho = Inr F'" by simp
  qed
next
  case (6 a as rho)
  then show ?case by (auto split: sum.splits)
qed simp_all

text \<open>
  C8 (amended). Applying a substitution twice gives what applying it once gives,
  provided no formula in the range of the substitution contains a template
  application or a variable that the substitution binds: if
  \<open>apply_formula F rho\<close> returns \<open>F'\<close>, then \<open>apply_formula F' rho\<close> returns
  \<open>F'\<close> again.
\<close>

theorem apply_formula_idempotent:
  assumes "\<forall>q \<in> ran rho. inert (dom rho) q"
    and "apply_formula F rho = Inr F'"
  shows "apply_formula F' rho = Inr F'"
  using apply_idem_gen(1) [of rho "dom rho" F] assms by blast

text \<open>The amended C8 at a concrete formula and substitution.\<close>

theorem apply_formula_idempotent_witness:
  "apply_formula (App SAYS 2 [Agent ''#a'', Forall ''y'' (Variable ''x'')])
      [Variable ''x'' \<mapsto> Resource ''<r>'']
     = Inr (App SAYS 2 [Agent ''#a'', Forall ''y'' (Resource ''<r>'')])
   \<and> apply_formula (App SAYS 2 [Agent ''#a'', Forall ''y'' (Resource ''<r>'')])
      [Variable ''x'' \<mapsto> Resource ''<r>'']
     = Inr (App SAYS 2 [Agent ''#a'', Forall ''y'' (Resource ''<r>'')])"
proof -
  let ?rho = "[Variable ''x'' \<mapsto> Resource ''<r>'']"
  have h: "\<forall>q \<in> ran ?rho. inert (dom ?rho) q" by simp
  have a: "apply_formula (App SAYS 2 [Agent ''#a'', Forall ''y'' (Variable ''x'')]) ?rho
     = Inr (App SAYS 2 [Agent ''#a'', Forall ''y'' (Resource ''<r>'')])" by simp
  from apply_formula_idempotent [OF h a] a show ?thesis by simp
qed

text \<open>
  C8 as stated fails: under \<open>{x: y, y: z}\<close> the variable \<open>x\<close> becomes \<open>y\<close>,
  and a second application turns that \<open>y\<close> into \<open>z\<close>.
\<close>

theorem apply_formula_not_idempotent:
  "\<not> (\<forall>F rho F'. apply_formula F rho = Inr F' \<longrightarrow> apply_formula F' rho = Inr F')"
proof
  assume h: "\<forall>F rho F'. apply_formula F rho = Inr F' \<longrightarrow> apply_formula F' rho = Inr F'"
  let ?rho = "[Variable ''x'' \<mapsto> Variable ''y'', Variable ''y'' \<mapsto> Variable ''z'']"
  have "apply_formula (Variable ''x'') ?rho = Inr (Variable ''y'')" by simp
  with h have "apply_formula (Variable ''y'') ?rho = Inr (Variable ''y'')" by blast
  then show False by simp
qed

section \<open>Properties of the matcher (claim C4)\<close>

lemma apply_args_zip:
  "length a = length b \<Longrightarrow> \<forall>e \<in> set (zip a b). apply_formula (fst e) rho = Inr (snd e) \<Longrightarrow>
   apply_args a rho = Inr b"
  by (induction a b rule: list_induct2) auto

lemma pattern_eq_zip:
  assumes "list_all first_order a" "list_all wf_formula a" "list_all wf_formula b"
  shows "list_all pattern_eq (zip a b)"
  using assms
  by (auto simp: list_all_iff pattern_eq_def dest: set_zip_leftD set_zip_rightD)

lemma matchs_sound_gen:
  "matchs k eqs r = Some (Inr (Some rho)) \<Longrightarrow> r = Some rho0 \<Longrightarrow> list_all pattern_eq eqs \<Longrightarrow>
   rho0 \<subseteq>\<^sub>m rho \<and> (\<forall>e \<in> set eqs. apply_formula (fst e) rho = Inr (snd e))"
proof (induction k eqs r arbitrary: rho0 rule: matchs.induct)
  case (1 k eqs)
  then show ?case by simp
next
  case (2 k rho')
  then show ?case by simp
next
  case (3 eq rest rho')
  then show ?case by simp
next
  case (4 k x c rest rho')
  from "4.prems" have r0: "rho0 = rho'" and pe: "list_all pattern_eq rest" by simp_all
  show ?case
  proof (cases "rho' (Variable x)")
    case None
    with "4.prems" have m: "matchs k rest (Some (rho'(Variable x \<mapsto> c))) = Some (Inr (Some rho))"
      by simp
    from "4.IH"(1) [OF None m refl pe]
    have ih: "rho'(Variable x \<mapsto> c) \<subseteq>\<^sub>m rho"
      "\<forall>e \<in> set rest. apply_formula (fst e) rho = Inr (snd e)" by blast+
    from ih(1) have "rho (Variable x) = Some c" by (auto simp: map_le_def)
    moreover have "rho' \<subseteq>\<^sub>m rho"
      unfolding map_le_def
    proof
      fix a assume a: "a \<in> dom rho'"
      with None have ne: "a \<noteq> Variable x" by auto
      from ih(1) have "a \<in> dom (rho'(Variable x \<mapsto> c)) \<Longrightarrow> (rho'(Variable x \<mapsto> c)) a = rho a"
        unfolding map_le_def by blast
      moreover from a have "a \<in> dom (rho'(Variable x \<mapsto> c))" by simp
      ultimately have "(rho'(Variable x \<mapsto> c)) a = rho a" by blast
      with ne show "rho' a = rho a" by simp
    qed
    ultimately show ?thesis using ih(2) r0 by simp
  next
    case (Some q)
    with "4.prems" have qc: "q = c" and m: "matchs k rest (Some rho') = Some (Inr (Some rho))"
      by (auto split: if_splits)
    from "4.IH"(2) [OF Some qc m refl pe]
    have ih: "rho' \<subseteq>\<^sub>m rho" "\<forall>e \<in> set rest. apply_formula (fst e) rho = Inr (snd e)"
      by blast+
    from ih(1) Some qc have "rho (Variable x) = Some c" by (auto simp: map_le_def dom_def)
    then show ?thesis using ih r0 by simp
  qed
next
  case (5 k oper n a c rest rho')
  from "5.prems" have r0: "rho0 = rho'" and pe: "list_all pattern_eq rest"
    and hd: "pattern_eq (App oper n a, c)"
    by simp_all
  from hd have fo: "oper \<noteq> OTHER" "list_all first_order a"
    and wa: "n = int (length a)" "list_all wf_formula a"
    and wc: "wf_formula c"
    by (simp_all add: pattern_eq_def)
  from "5.prems"(1) fo(1) obtain o2 n2 a2 where c: "c = App o2 n2 a2"
    by (cases c) auto
  from "5.prems"(1) fo(1) c have eq: "oper = o2 \<and> n = n2"
    and m: "matchs k (zip a a2 @ rest) (Some rho') = Some (Inr (Some rho))"
    by (auto split: if_splits)
  from wc c have wa2: "n2 = int (length a2)" "list_all wf_formula a2" by simp_all
  from pattern_eq_zip [OF fo(2) wa(2) wa2(2)] pe
  have pe': "list_all pattern_eq (zip a a2 @ rest)" by simp
  from "5.IH"(4) [OF fo(1) c eq m refl pe']
  have ih: "rho' \<subseteq>\<^sub>m rho"
    "\<forall>e \<in> set (zip a a2 @ rest). apply_formula (fst e) rho = Inr (snd e)" by blast+
  from wa(1) wa2(1) eq have len: "length a = length a2" by simp
  from ih(2) have "\<forall>e \<in> set (zip a a2). apply_formula (fst e) rho = Inr (snd e)" by simp
  from apply_args_zip [OF len this] have "apply_args a rho = Inr a2" .
  with fo(1) c eq have "apply_formula (App oper n a) rho = Inr c" by simp
  with ih r0 show ?case by simp
next
  case (6 k x1 p1 c rest rho')
  then show ?case by (simp add: pattern_eq_def)
qed (auto split: if_splits)

text \<open>
  C4 (amended). Matcher soundness for first-order patterns: if the pattern \<open>P\<close> contains
  no quantifier and no template application, \<open>P\<close> and the concrete formula \<open>C\<close> are
  well formed (every arity field is the number of arguments), and
  \<open>matchs([(P, C)], {})\<close> returns a substitution \<open>rho\<close>, then \<open>apply_formula(P, rho)\<close>
  returns \<open>C\<close>.
\<close>

theorem matchs_sound_first_order:
  assumes "matchs k [(P, C)] (Some Map.empty) = Some (Inr (Some rho))"
    and "first_order P" and "wf_formula P" and "wf_formula C"
  shows "apply_formula P rho = Inr C"
  using matchs_sound_gen [OF assms(1) refl, of] assms(2-4)
  by (simp add: pattern_eq_def)

text \<open>
  The amended C4 at the pattern \<open>A says open(B, <r>)\<close> and the formula
  \<open>#root says open(#a, <r>)\<close>.
\<close>

theorem matchs_sound_first_order_witness:
  "matchs 5 [(App SAYS 2 [Variable ''A'', App OPEN 2 [Variable ''B'', Resource ''<r>'']],
              App SAYS 2 [Agent ''#root'', App OPEN 2 [Agent ''#a'', Resource ''<r>'']])]
      (Some Map.empty)
     = Some (Inr (Some [Variable ''A'' \<mapsto> Agent ''#root'', Variable ''B'' \<mapsto> Agent ''#a'']))
   \<and> apply_formula (App SAYS 2 [Variable ''A'', App OPEN 2 [Variable ''B'', Resource ''<r>'']])
        [Variable ''A'' \<mapsto> Agent ''#root'', Variable ''B'' \<mapsto> Agent ''#a'']
     = Inr (App SAYS 2 [Agent ''#root'', App OPEN 2 [Agent ''#a'', Resource ''<r>'']])"
proof -
  let ?P = "App SAYS 2 [Variable ''A'', App OPEN 2 [Variable ''B'', Resource ''<r>'']]"
  let ?C = "App SAYS 2 [Agent ''#root'', App OPEN 2 [Agent ''#a'', Resource ''<r>'']]"
  let ?rho = "[Variable ''A'' \<mapsto> Agent ''#root'', Variable ''B'' \<mapsto> Agent ''#a'']"
  have m: "matchs 5 [(?P, ?C)] (Some Map.empty) = Some (Inr (Some ?rho))"
    by (simp add: eval_nat_numeral)
  have "first_order ?P" "wf_formula ?P" "wf_formula ?C" by simp_all
  from matchs_sound_first_order [OF m this] m show ?thesis by simp
qed

text \<open>
  C4 as stated fails: matching \<open>@x . x\<close> against \<open>@y . y\<close> renames the bound variable,
  succeeds with the empty substitution, and applying the empty substitution to the
  pattern gives the pattern \<open>@x . x\<close>, which is not equal to \<open>@y . y\<close>.
\<close>

theorem matchs_unsound_forall:
  "matchs 2 [(Forall ''x'' (Variable ''x''), Forall ''y'' (Variable ''y''))] (Some Map.empty)
     = Some (Inr (Some Map.empty))
   \<and> apply_formula (Forall ''x'' (Variable ''x'')) Map.empty = Inr (Forall ''x'' (Variable ''x''))
   \<and> Forall ''x'' (Variable ''x'') \<noteq> Forall ''y'' (Variable ''y'')"
  by (simp add: eval_nat_numeral)

section \<open>Properties of rebasing (claim C6)\<close>

text \<open>
  C6. Claimed, and stated by the docstring of \<open>rebase_proof\<close> (it sets the left side of
  all sequents to the given list) and by the comment at its call in
  \<open>AccessRequest.make_for_proof\<close> (the left side of all sequents is stripped away): every
  sequent of \<open>rebase_proof(pi, [])\<close> has no assumptions. The code: the loop drops only
  the assumptions of the form \<open>sign(...)\<close>. For the proof of
  \<open>sign(P, [k]) true, P true |- P true\<close> by the rule \<open>id\<close>, the rebased conclusion still
  has the assumption \<open>P true\<close>.
\<close>

theorem rebase_proof_empty_keeps_assumptions:
  "rebase_proof remdups
     (Proof [] (Sequent [Proposition (App SIGN 2 [Variable ''P'', Key ''[k]'']),
                         Proposition (Variable ''P'')]
                        (Proposition (Variable ''P''))) identityRule) []
   = Proof [] (Sequent [Proposition (Variable ''P'')] (Proposition (Variable ''P''))) identityRule"
  by (simp add: rebase_sequent_def)

text \<open>
  The same holds for every proof and every iteration order, of which \<open>remdups\<close> is one:
  an assumption of a sequent that is not a \<open>sign\<close> formula is an assumption of the
  rebased sequent, and so for the conclusion of every proof.
\<close>

lemma faithful_remdups: "faithful_order remdups"
  by (simp add: faithful_order_def)

lemma rebase_sequent_empty_keeps:
  assumes "faithful_order ord" and "p \<in> set (gamma s)" and "\<not> is_app SIGN (judgement_p p)"
  shows "p \<in> set (gamma (rebase_sequent ord s []))"
  using assms by (simp add: rebase_sequent_def faithful_order_def)

lemma rebase_proof_empty_keeps_for_every_order:
  assumes "faithful_order ord"
    and "p \<in> set (gamma (conclusion pf))"
    and "\<not> is_app SIGN (judgement_p p)"
  shows "p \<in> set (gamma (conclusion (rebase_proof ord pf [])))"
  using rebase_sequent_empty_keeps [OF assms(1) _ assms(3)] assms(2)
  by (cases pf) simp

text \<open>
  What rebasing onto the empty list does to a sequent, exactly: the delta is kept, and
  the assumptions are those of the sequent that are not \<open>sign\<close> formulas, each once.
\<close>

lemma rebase_sequent_empty:
  assumes "faithful_order ord"
  shows "delta (rebase_sequent ord s []) = delta s"
    and "set (gamma (rebase_sequent ord s [])) = {p \<in> set (gamma s). \<not> is_app SIGN (judgement_p p)}"
    and "distinct (gamma (rebase_sequent ord s []))"
  using assms by (auto simp: rebase_sequent_def faithful_order_def)

section \<open>Properties of the verifier (claims C1 and C10)\<close>

text \<open>
  C1. Claimed: a \<open>botL\<close> step with no premises and a Proposition goal is legal only if
  \<open>false true\<close> is among the assumptions. The code: \<open>verify\<close> returns no open
  obligation for such a step whatever the assumptions are, also when there are none.
\<close>

theorem botl_accepts_any_goal:
  "verify ord k (Proof [] (Sequent g (Proposition q)) (Rule rp rc ''botL'')) = Some (Inr [])"
  by (simp add: verify_step_def calculus_def verify_botl_def)

text \<open>The sibling rule \<open>id\<close> does return the conclusion when its goal is not assumed.\<close>

lemma identity_rejects_missing_goal:
  "verify ord k (Proof [] (Sequent [] (Proposition q)) (Rule rp rc ''id''))
     = Some (Inr [Sequent [] (Proposition q)])"
  by (simp add: verify_step_def calculus_def verify_identity_def)

text \<open>
  C10. Claimed: \<open>verify\<close> never raises, and an \<open>@L\<close> step whose premise assumptions
  differ from the conclusion's in fewer than two judgements is reported as illegal. The
  code: when the premise has the assumptions of the conclusion, the symmetric
  difference is empty and reading its first element raises IndexError.
\<close>

theorem leftforall_raises_on_unchanged_premise:
  "verify remdups k
     (Proof [Leaf (Sequent (Proposition (Forall x b) # g) d)]
            (Sequent (Proposition (Forall x b) # g) d)
            (Rule rp rc ''@L''))
   = Some (Inl IndexError)"
proof -
  let ?g = "Proposition (Forall x b) # g"
  have ne: "{p \<in> set ?g. is_Forall (judgement_p p)} \<noteq> {}"
  proof -
    have "Proposition (Forall x b) \<in> {p \<in> set ?g. is_Forall (judgement_p p)}" by simp
    then show ?thesis by blast
  qed
  have diff: "[p \<leftarrow> ?g. p \<notin> set ?g] @ [p \<leftarrow> ?g. p \<notin> set ?g] = []" by simp
  have "verify_leftforall remdups k
          (Proof [Leaf (Sequent ?g d)] (Sequent ?g d) (Rule rp rc ''@L''))
        = Some (Inl IndexError)"
    unfolding verify_leftforall_def using ne
    by (simp only: prooftree.sel sequent.sel premise_gamma.simps premise_delta.simps
          nth_Cons_0 Let_def diff remdups.simps list.size index.simps)
       simp
  then show ?thesis
    by (simp add: verify_step_def calculus_def)
qed

text \<open>The same holds for every iteration order: the list of the empty set is empty.\<close>

lemma leftforall_raises_for_every_order:
  assumes "faithful_order ord"
  shows "verify ord k
     (Proof [Leaf (Sequent (Proposition (Forall x b) # g) d)]
            (Sequent (Proposition (Forall x b) # g) d)
            (Rule rp rc ''@L''))
   = Some (Inl IndexError)"
proof -
  let ?g = "Proposition (Forall x b) # g"
  have ne: "{p \<in> set ?g. is_Forall (judgement_p p)} \<noteq> {}"
  proof -
    have "Proposition (Forall x b) \<in> {p \<in> set ?g. is_Forall (judgement_p p)}" by simp
    then show ?thesis by blast
  qed
  have diff: "[p \<leftarrow> ?g. p \<notin> set ?g] @ [p \<leftarrow> ?g. p \<notin> set ?g] = []" by simp
  from assms have "set (ord []) = {}" by (simp add: faithful_order_def)
  then have emp: "ord [] = []" by simp
  have "verify_leftforall ord k
          (Proof [Leaf (Sequent ?g d)] (Sequent ?g d) (Rule rp rc ''@L''))
        = Some (Inl IndexError)"
    unfolding verify_leftforall_def using ne
    by (simp only: prooftree.sel sequent.sel premise_gamma.simps premise_delta.simps
          nth_Cons_0 Let_def diff emp list.size index.simps)
       simp
  then show ?thesis
    by (simp add: verify_step_def calculus_def)
qed

section \<open>Properties of certificate verification (claims C2 and C3)\<close>

text \<open>
  C3. Claimed: when the chain has no entry for the signator, \<open>verify_cert\<close> returns
  False. The code: for a certificate whose statement and fingerprint are right and an
  empty chain, it raises KeyError.
\<close>

theorem verify_cert_missing_signator_raises:
  "verify_cert env (Suc n) (iskey_cert env pk a signer sg) Map.empty roots = Some (Inl KeyError)"
  by (simp add: iskey_cert_def key_fingerprint_def)

text \<open>
  C2 (amended). For a certificate whose statement is \<open>iskey\<close> of its own subject and a
  key, which is self-signed, whose signator has an entry in the chain and whose
  signature field is hexadecimal: if the set of trusted roots is not empty and does not
  contain the certificate, \<open>verify_cert\<close> returns False.
\<close>

theorem verify_cert_self_signed_untrusted:
  assumes "cred_p (cred cert) = App ISKEY 2 [Agent (agent cert), Key fp]"
    and "signator (cred cert) = agent cert"
    and "chain (agent cert) = Some signer"
    and "fromhex env (signature (cred cert)) = Inr sig"
    and "roots \<noteq> []"
    and "cert \<notin> set roots"
  shows "verify_cert env (Suc n) cert chain roots = Some (Inr False)"
  using assms by (simp add: key_fingerprint_def dom_def)

text \<open>The amended C2 at the example's self-signed certificate and another root.\<close>

theorem verify_cert_self_signed_untrusted_witness:
  "verify_cert toy_env (Suc 0) toy_ca_cert [''#ca'' \<mapsto> toy_ca_cert] [toy_other_cert]
     = Some (Inr False)"
proof -
  have 1: "cred_p (cred toy_ca_cert) = App ISKEY 2 [Agent (agent toy_ca_cert), Key ''[kc]'']"
    by (simp add: toy_ca_cert_def iskey_cert_def fingerprint_def toy_env_def)
  have 2: "signator (cred toy_ca_cert) = agent toy_ca_cert"
    by (simp add: toy_ca_cert_def iskey_cert_def)
  have 3: "[''#ca'' \<mapsto> toy_ca_cert] (agent toy_ca_cert) = Some toy_ca_cert"
    by (simp add: toy_ca_cert_def iskey_cert_def)
  have 4: "fromhex toy_env (signature (cred toy_ca_cert)) = Inr (signature (cred toy_ca_cert))"
    by (simp add: toy_env_def)
  have 5: "[toy_other_cert] \<noteq> []" by simp
  have 6: "toy_ca_cert \<notin> set [toy_other_cert]"
    by (simp add: toy_ca_cert_def toy_other_cert_def iskey_cert_def)
  from verify_cert_self_signed_untrusted
         [where chain = "[''#ca'' \<mapsto> toy_ca_cert]" and n = 0, OF 1 2 3 4 5 6]
  show ?thesis .
qed

text \<open>
  C2 as stated fails: with an empty set of roots, a self-signed certificate with a
  valid signature is accepted.
\<close>

theorem verify_cert_accepts_self_signed_without_roots:
  "verify_cert toy_env (Suc 0) toy_ca_cert [''#ca'' \<mapsto> toy_ca_cert] [] = Some (Inr True)
   \<and> signator (cred toy_ca_cert) = agent toy_ca_cert
   \<and> toy_ca_cert \<notin> set []"
  by (simp add: toy_ca_cert_def iskey_cert_def fingerprint_def toy_env_def key_fingerprint_def)

section \<open>Properties of request verification (claim C5)\<close>

text \<open>
  C5. Claimed, and stated by the docstring of \<open>verify_request\<close> (a request whose
  evidence and proof verify gives a credential signed by \<open>#root\<close>): an accepted request
  returns a fresh credential. The code: for the example request, whose two
  certificates and whose credential verify, with the certificate of \<open>#ca\<close> as the trusted
  root, it raises NameError at the call of the unbound name \<open>get_cas\<close>.
\<close>

theorem verify_request_raises_name_error:
  "verify_request toy_env (Suc (Suc k)) toy_request [toy_ca_cert] = Some (Inl NameError)"
  by (simp add: verify_request_def toy_request_def toy_policy_def toy_ca_cert_def
        toy_root_cert_def iskey_cert_def toy_env_def fingerprint_def key_fingerprint_def
        cert_chain_of_def chain_lookup_def verify_signature_def bindE_def Let_def)

text \<open>
  The two loops of the example do run: each certificate and the credential are
  verified, and the same request with a wrong signature on the credential is refused.
\<close>

lemma toy_request_evidence_verifies:
  "check_certs toy_env (Suc (Suc k)) (certs toy_request) (cert_chain_of (certs toy_request))
     [toy_ca_cert] = Some (Inr True)
   \<and> check_creds toy_env (creds toy_request) (cert_chain_of (certs toy_request)) = Inr True"
  by (simp add: toy_request_def toy_policy_def toy_ca_cert_def
        toy_root_cert_def iskey_cert_def toy_env_def fingerprint_def key_fingerprint_def
        cert_chain_of_def chain_lookup_def verify_signature_def bindE_def)

lemma verify_request_refuses_bad_credential:
  "verify_request toy_env (Suc (Suc k))
     (toy_request\<lparr>creds := [toy_policy\<lparr>signature := ''kaopen(#a, <r>)''\<rparr>]\<rparr>) [toy_ca_cert]
   = Some (Inr None)"
  by (simp add: verify_request_def toy_request_def toy_policy_def toy_ca_cert_def
        toy_root_cert_def iskey_cert_def toy_env_def fingerprint_def key_fingerprint_def
        cert_chain_of_def chain_lookup_def verify_signature_def bindE_def Let_def)

text \<open>No request at all makes \<open>verify_request\<close> return a credential.\<close>

lemma verify_request_returns_no_credential:
  "verify_request env k req roots \<noteq> Some (Inr (Some c))"
  by (simp add: verify_request_def Let_def split: option.splits sum.splits)

section \<open>Properties of the canonical encoding (claim C9)\<close>

text \<open>
  C9. Claimed: parsing the encoding of a formula gives the formula back. The code: a
  conjunction is encoded with the symbol \<open>&\<close>, which no token of the grammar of
  parser.py contains; and the encoding is not injective: the template \<open>ca(x)\<close> and the
  formula \<open>ca(x)\<close>, or the variable \<open>true\<close> and the constant \<open>true\<close>, have the same
  encoding.
\<close>

theorem stringify_ampersand_and_collisions:
  "fmla_stringify (App AND 2 [Variable ''P'', Variable ''Q'']) = Inr ''(P & Q)''
   \<and> fmla_stringify (App OTHER 2 [Variable ''ca'', Variable ''x'']) = Inr ''ca(x)''
   \<and> fmla_stringify (App ISCA 1 [Variable ''x'']) = Inr ''ca(x)''
   \<and> fmla_stringify (Variable ''true'') = Inr ''true''
   \<and> fmla_stringify (App TRUE 0 []) = Inr ''true''"
  by simp

text \<open>So no function from strings to formulas inverts the encoding.\<close>

lemma no_inverse_of_stringify:
  "\<not> (\<exists>prs :: string \<Rightarrow> error + formula. \<forall>F s. fmla_stringify F = Inr s \<longrightarrow> prs s = Inr F)"
proof
  assume "\<exists>prs :: string \<Rightarrow> error + formula. \<forall>F s. fmla_stringify F = Inr s \<longrightarrow> prs s = Inr F"
  then obtain prs :: "string \<Rightarrow> error + formula"
    where h: "\<And>F s. fmla_stringify F = Inr s \<Longrightarrow> prs s = Inr F" by blast
  have "prs ''ca(x)'' = Inr (App OTHER 2 [Variable ''ca'', Variable ''x''])"
    by (rule h) simp
  moreover have "prs ''ca(x)'' = Inr (App ISCA 1 [Variable ''x''])"
    by (rule h) simp
  ultimately show False by simp
qed

section \<open>Rebasing twice (claim C7)\<close>

lemma rebase_sequent_twice:
  assumes "faithful_order ord"
  shows "same_sequent (rebase_sequent ord (rebase_sequent ord s g) g) (rebase_sequent ord s g)"
proof -
  let ?keep = "\<lambda>p. \<not> is_app SIGN (judgement_p p) \<or> p \<in> set g"
  let ?g1 = "ord (filter ?keep (gamma s) @ g)"
  let ?g2 = "ord (filter ?keep ?g1 @ g)"
  from assms have d: "distinct ?g1" "distinct ?g2"
    by (simp_all add: faithful_order_def)
  from assms have s1: "set ?g1 = set (filter ?keep (gamma s) @ g)"
    by (simp add: faithful_order_def)
  from assms have "set ?g2 = set (filter ?keep ?g1 @ g)"
    by (simp add: faithful_order_def)
  with s1 have "set ?g2 = set ?g1" by auto
  with d have "mset ?g2 = mset ?g1"
    by (simp add: set_eq_iff_mset_eq_distinct)
  then show ?thesis
    by (simp add: same_sequent_def rebase_sequent_def)
qed

lemma rebase_twice_gen:
  assumes "faithful_order ord"
  shows "same_proof (rebase_proof ord (rebase_proof ord pf g) g) (rebase_proof ord pf g)"
    and "same_premises (rebase_premises ord (rebase_premises ord ps g) g) (rebase_premises ord ps g)"
  using rebase_sequent_twice [OF assms]
  by (induction ord pf g and ord ps g rule: rebase_proof_rebase_premises.induct) simp_all

text \<open>
  C7 (amended). For every proof \<open>pi\<close> and assumption list \<open>Gamma\<close>, rebasing
  \<open>rebase_proof(pi, Gamma)\<close> once more onto \<open>Gamma\<close> gives a proof with the same tree and
  the same rule at every node, in which every sequent has the same delta and the same
  assumptions, each as many times, as the sequent at the same place of
  \<open>rebase_proof(pi, Gamma)\<close>; only the order of the assumptions in the lists may differ.
\<close>

theorem rebase_proof_twice:
  assumes "faithful_order ord"
  shows "same_proof (rebase_proof ord (rebase_proof ord pf g) g) (rebase_proof ord pf g)"
  using rebase_twice_gen(1) [OF assms] .

text \<open>
  With an iteration order that depends only on the set, the two proofs are equal.
\<close>

lemma rebase_sequent_twice_canonical:
  assumes "faithful_order ord" and "\<And>xs ys. set xs = set ys \<Longrightarrow> ord xs = ord ys"
  shows "rebase_sequent ord (rebase_sequent ord s g) g = rebase_sequent ord s g"
proof -
  let ?keep = "\<lambda>p. \<not> is_app SIGN (judgement_p p) \<or> p \<in> set g"
  let ?g1 = "ord (filter ?keep (gamma s) @ g)"
  from assms(1) have s1: "set ?g1 = set (filter ?keep (gamma s) @ g)"
    by (simp add: faithful_order_def)
  have "set (filter ?keep ?g1 @ g) = set (filter ?keep (gamma s) @ g)"
    using s1 by auto
  from assms(2) [OF this] show ?thesis
    by (simp add: rebase_sequent_def)
qed

lemma faithful_toy_reverse_order: "faithful_order toy_reverse_order"
  by (simp add: faithful_order_def toy_reverse_order_def)

text \<open>
  The amended C7 at a proof with two nodes and an open leaf, rebased onto two
  assumptions, under the order that lists the last element first. The first rebasing
  drops the \<open>sign\<close> assumption that is not among the new ones and lists each assumption
  once; the second only reorders the lists.
\<close>

theorem rebase_proof_twice_witness:
  "faithful_order toy_reverse_order
   \<and> rebase_proof toy_reverse_order toy_cut_proof toy_gamma = toy_cut_proof_once
   \<and> rebase_proof toy_reverse_order toy_cut_proof_once toy_gamma = toy_cut_proof_twice
   \<and> toy_cut_proof_twice \<noteq> toy_cut_proof_once
   \<and> same_proof toy_cut_proof_twice toy_cut_proof_once"
proof -
  have 1: "rebase_proof toy_reverse_order toy_cut_proof toy_gamma = toy_cut_proof_once"
    by (simp add: toy_cut_proof_def toy_cut_proof_once_def toy_gamma_def rebase_sequent_def
          toy_reverse_order_def)
  have 2: "rebase_proof toy_reverse_order toy_cut_proof_once toy_gamma = toy_cut_proof_twice"
    by (simp add: toy_cut_proof_once_def toy_cut_proof_twice_def toy_gamma_def
          rebase_sequent_def toy_reverse_order_def)
  have 3: "toy_cut_proof_twice \<noteq> toy_cut_proof_once"
    by (simp add: toy_cut_proof_once_def toy_cut_proof_twice_def)
  from rebase_proof_twice [OF faithful_toy_reverse_order, of toy_cut_proof toy_gamma] 1 2
  have "same_proof toy_cut_proof_twice toy_cut_proof_once" by simp
  with faithful_toy_reverse_order 1 2 3 show ?thesis by simp
qed

text \<open>
  C7 as stated fails for an order in which Python may iterate over the sets: when the
  set of \<open>P true\<close> and \<open>Q true\<close> lists its elements the last one first, the first
  rebasing gives the assumptions \<open>[Q true, P true]\<close> and the second gives
  \<open>[P true, Q true]\<close>.
\<close>

theorem rebase_proof_twice_reorders:
  "rebase_proof toy_reverse_order
     (Proof [] (Sequent [Proposition (Variable ''P''), Proposition (Variable ''Q'')]
                        (Proposition (Variable ''P''))) identityRule) []
   = Proof [] (Sequent [Proposition (Variable ''Q''), Proposition (Variable ''P'')]
                       (Proposition (Variable ''P''))) identityRule
   \<and> rebase_proof toy_reverse_order
       (rebase_proof toy_reverse_order
          (Proof [] (Sequent [Proposition (Variable ''P''), Proposition (Variable ''Q'')]
                             (Proposition (Variable ''P''))) identityRule) []) []
   = Proof [] (Sequent [Proposition (Variable ''P''), Proposition (Variable ''Q'')]
                       (Proposition (Variable ''P''))) identityRule
   \<and> faithful_order toy_reverse_order"
  using faithful_toy_reverse_order
  by (simp add: rebase_sequent_def toy_reverse_order_def)

end
